theory Spec2Isabelle
  imports Main "HOL-Library.Char_ord" "HOL-Library.List_Lexorder" "HOL-Library.Sublist"
begin

section \<open>The Matrix message pipeline of briefly (src/main.py)\<close>

text \<open>
  The development embeds \<^verbatim>\<open>MatrixClient._format_messages\<close> and
  \<^verbatim>\<open>MatrixClient.get_messages\<close> of \<^verbatim>\<open>src/main.py\<close>. The response of the
  homeserver is whatever \<^verbatim>\<open>response.json()\<close> returns, a tree of dicts, lists, strings,
  integers, booleans and \<^verbatim>\<open>None\<close>; the source reads it with \<^verbatim>\<open>dict.get\<close> and never
  checks a type, so the model keeps the tree untyped and writes every exception the
  reads can raise as a value.

  Two limits of the model. Numbers are integers: a Python \<^verbatim>\<open>float\<close> (a JSON number with
  a fraction or an exponent) has no constructor. A string is a \<^typ>\<open>string\<close>, one
  \<^typ>\<open>char\<close> for each character of the Python string.
\<close>

subsection \<open>JSON values and the Python operations the source applies to them\<close>

datatype json =
    JNull
  | JBool bool
  | JInt int
  | JStr string
  | JList "json list"
  | JObj "(string \<times> json) list"

text \<open>
  \<open>JNull\<close> is Python's \<^verbatim>\<open>None\<close>. \<open>JObj kv\<close> is the dict that maps a key to
  \<open>map_of kv\<close> of it.
\<close>

datatype error = KeyError | TypeError | AttributeError

text \<open>Sequencing of two steps of which the first may raise.\<close>

definition and_then :: "error + 'a \<Rightarrow> ('a \<Rightarrow> error + 'b) \<Rightarrow> error + 'b" where
  "and_then x f = (case x of Inl e \<Rightarrow> Inl e | Inr v \<Rightarrow> f v)"

text \<open>\<^verbatim>\<open>bool(x)\<close>, the test of \<^verbatim>\<open>if x\<close>.\<close>

fun truthy :: "json \<Rightarrow> bool" where
  "truthy JNull = False"
| "truthy (JBool b) = b"
| "truthy (JInt i) = (i \<noteq> 0)"
| "truthy (JStr s) = (s \<noteq> [])"
| "truthy (JList xs) = (xs \<noteq> [])"
| "truthy (JObj kv) = (kv \<noteq> [])"

text \<open>\<^verbatim>\<open>d.get(key, default)\<close> on a dict.\<close>

definition dict_get :: "(string \<times> json) list \<Rightarrow> string \<Rightarrow> json \<Rightarrow> json" where
  "dict_get kv key dflt = (case map_of kv key of None \<Rightarrow> dflt | Some v \<Rightarrow> v)"

text \<open>
  \<^verbatim>\<open>x.get(key, default)\<close> on any value: only a dict has the method, every other value
  raises \<^verbatim>\<open>AttributeError\<close>.
\<close>

fun py_get :: "json \<Rightarrow> string \<Rightarrow> json \<Rightarrow> error + json" where
  "py_get (JObj kv) key dflt = Inr (dict_get kv key dflt)"
| "py_get _ key dflt = Inl AttributeError"

text \<open>\<^verbatim>\<open>p in s\<close> on two strings: \<open>p\<close> occurs in \<open>s\<close> as a substring.\<close>

fun py_substr :: "string \<Rightarrow> string \<Rightarrow> bool" where
  "py_substr p [] = (p = [])"
| "py_substr p (c # cs) = (take (length p) (c # cs) = p \<or> py_substr p cs)"

text \<open>
  \<^verbatim>\<open>key in x\<close> for a string \<open>key\<close>: a key of a dict, a substring of a string, an
  element of a list; \<^verbatim>\<open>None\<close>, a boolean and an integer are not iterable and raise
  \<^verbatim>\<open>TypeError\<close>.
\<close>

fun py_in :: "string \<Rightarrow> json \<Rightarrow> error + bool" where
  "py_in key (JObj kv) = Inr (map_of kv key \<noteq> None)"
| "py_in key (JStr s) = Inr (py_substr key s)"
| "py_in key (JList xs) = Inr (List.member xs (JStr key))"
| "py_in key _ = Inl TypeError"

text \<open>
  \<^verbatim>\<open>s.split(c)\<close> for a separator of one character: the pieces between the occurrences
  of \<open>c\<close>, never an empty list. \<open>split_from c cur s\<close> scans \<open>s\<close> with the piece \<open>cur\<close>
  read so far.
\<close>

fun split_from :: "char \<Rightarrow> string \<Rightarrow> string \<Rightarrow> string list" where
  "split_from c cur [] = [cur]"
| "split_from c cur (x # xs) =
     (if x = c then cur # split_from c [] xs else split_from c (cur @ [x]) xs)"

definition py_split :: "char \<Rightarrow> string \<Rightarrow> string list" where
  "py_split c s = split_from c [] s"

text \<open>\<^verbatim>\<open>s.split("$")[-1][:8]\<close> on a string.\<close>

definition short_hash :: "string \<Rightarrow> string" where
  "short_hash s = take 8 (last (py_split (CHR ''$'') s))"

text \<open>
  \<^verbatim>\<open>x.split("$")[-1][:8] if x else "unknown"\<close> (lines 189 and 193): a falsy value of any
  type gives the sentinel, a non-empty string is shortened, and any other truthy value
  has no \<^verbatim>\<open>split\<close> and raises \<^verbatim>\<open>AttributeError\<close>.
\<close>

definition hash_or_unknown :: "json \<Rightarrow> error + string" where
  "hash_or_unknown x =
     (if truthy x then (case x of JStr s \<Rightarrow> Inr (short_hash s) | _ \<Rightarrow> Inl AttributeError)
      else Inr ''unknown'')"

subsection \<open>The dict of display names\<close>

text \<open>
  The keys of \<^verbatim>\<open>display_names\<close> are the senders, any hashable value. A list and a dict
  are unhashable (\<^verbatim>\<open>TypeError\<close>); \<^verbatim>\<open>True\<close> and \<^verbatim>\<open>1\<close> (and \<^verbatim>\<open>False\<close> and \<^verbatim>\<open>0\<close>)
  are equal and hash alike, so they are one key.
\<close>

datatype dict_key = KNone | KNum int | KStr string

fun hash_key :: "json \<Rightarrow> error + dict_key" where
  "hash_key JNull = Inr KNone"
| "hash_key (JBool b) = Inr (KNum (if b then 1 else 0))"
| "hash_key (JInt i) = Inr (KNum i)"
| "hash_key (JStr s) = Inr (KStr s)"
| "hash_key (JList xs) = Inl TypeError"
| "hash_key (JObj kv) = Inl TypeError"

type_synonym names = "dict_key \<rightharpoonup> json"

text \<open>\<^verbatim>\<open>display_names[sender] = display_name\<close>.\<close>

definition names_set :: "names \<Rightarrow> json \<Rightarrow> json \<Rightarrow> error + names" where
  "names_set display_names sender display_name =
     and_then (hash_key sender) (\<lambda>k. Inr (display_names(k \<mapsto> display_name)))"

text \<open>\<^verbatim>\<open>display_names.get(sender)\<close>: \<^verbatim>\<open>None\<close> for a sender that is not a key.\<close>

definition names_get :: "names \<Rightarrow> json \<Rightarrow> error + json" where
  "names_get display_names sender =
     and_then (hash_key sender)
       (\<lambda>k. Inr (case display_names k of None \<Rightarrow> JNull | Some v \<Rightarrow> v))"

subsection \<open>First pass: display names from the member events (lines 141-149)\<close>

definition collect_step :: "names \<Rightarrow> json \<Rightarrow> error + names" where
  "collect_step display_names event =
     and_then (py_get event ''type'' JNull) (\<lambda>ty.
       if ty = JStr ''m.room.member'' then
         and_then (py_get event ''sender'' JNull) (\<lambda>sender.
         and_then (py_get event ''content'' (JObj [])) (\<lambda>content.
         and_then (py_get content ''displayname'' JNull) (\<lambda>display_name.
           if truthy sender \<and> truthy display_name
           then names_set display_names sender display_name
           else Inr display_names)))
       else Inr display_names)"

text \<open>The loop is outside every \<^verbatim>\<open>try\<close>: the first exception ends the call.\<close>

fun collect_names :: "names \<Rightarrow> json list \<Rightarrow> error + names" where
  "collect_names display_names [] = Inr display_names"
| "collect_names display_names (event # rest) =
     and_then (collect_step display_names event) (\<lambda>d. collect_names d rest)"

subsection \<open>Second pass: one formatted message for each message event (lines 152-212)\<close>

record message =
  nickname :: json
  display_name :: json
  sender :: json
  body :: json
  timestamp :: json
  is_reply :: bool
  is_thread :: bool
  reply_to_event_id :: json
  event_hash :: string
  reply_to_hash :: "string option"
  raw_event :: json

text \<open>
  The body of the \<^verbatim>\<open>try\<close> (lines 157-207) for an event that is a dict. A field that
  the source reads with \<^verbatim>\<open>get\<close> and stores as it is has the type \<^typ>\<open>json\<close>; an
  absent value is \<open>JNull\<close>, as it is \<^verbatim>\<open>None\<close> in the source.
\<close>

definition format_event :: "names \<Rightarrow> (string \<times> json) list \<Rightarrow> error + message" where
  "format_event display_names event =
     (let sender = dict_get event ''sender'' (JStr ''Unknown'');
          nickname = sender
      in and_then (names_get display_names sender) (\<lambda>display_name.
         let content = dict_get event ''content'' (JObj [])
         in and_then (py_get content ''body'' (JStr [])) (\<lambda>body.
            and_then (py_get content ''m.relates_to'' (JObj [])) (\<lambda>relates_to.
            and_then (py_in ''m.in_reply_to'' relates_to) (\<lambda>is_reply.
            and_then (py_get relates_to ''rel_type'' JNull) (\<lambda>rel_type.
            let is_thread = (rel_type = JStr ''m.thread'')
            in and_then
                 (if is_thread then py_get relates_to ''event_id'' JNull
                  else if is_reply then
                    and_then (py_get relates_to ''m.in_reply_to'' (JObj []))
                      (\<lambda>in_reply_to. py_get in_reply_to ''event_id'' JNull)
                  else Inr JNull) (\<lambda>reply_to_event_id.
               let timestamp = dict_get event ''origin_server_ts'' (JInt 0);
                   event_id = dict_get event ''event_id'' (JStr [])
               in and_then (hash_or_unknown event_id) (\<lambda>event_hash.
                  and_then
                    (if truthy reply_to_event_id
                     then map_sum id Some (hash_or_unknown reply_to_event_id)
                     else Inr None) (\<lambda>reply_to_hash.
                  Inr \<lparr>nickname = nickname, display_name = display_name, sender = sender,
                       body = body, timestamp = timestamp, is_reply = is_reply,
                       is_thread = is_thread, reply_to_event_id = reply_to_event_id,
                       event_hash = event_hash, reply_to_hash = reply_to_hash,
                       raw_event = JObj event\<rparr>)))))))))"

text \<open>
  The loop of lines 153-210. The test of the type is outside the \<^verbatim>\<open>try\<close>; an exception
  of the body is printed and the loop goes on with the next event (the printed line is
  not part of the model).
\<close>

fun format_loop :: "names \<Rightarrow> json list \<Rightarrow> error + message list" where
  "format_loop display_names [] = Inr []"
| "format_loop display_names (event # rest) =
     and_then (py_get event ''type'' JNull) (\<lambda>ty.
       if ty = JStr ''m.room.message'' then
         (case event of
            JObj ev \<Rightarrow>
              (case format_event display_names ev of
                 Inl e \<Rightarrow> format_loop display_names rest
               | Inr m \<Rightarrow> map_sum id ((#) m) (format_loop display_names rest))
          | _ \<Rightarrow> Inl AttributeError)
       else format_loop display_names rest)"

text \<open>
  \<^verbatim>\<open>r["chunk"]\<close> and the values \<^verbatim>\<open>for event in\<close> draws from it: the elements of a list,
  the keys of a dict (taken to be distinct in \<open>kv\<close>), the characters of a string.
\<close>

fun py_iter :: "json \<Rightarrow> error + json list" where
  "py_iter (JList xs) = Inr xs"
| "py_iter (JObj kv) = Inr (map (\<lambda>p. JStr (fst p)) kv)"
| "py_iter (JStr s) = Inr (map (\<lambda>c. JStr [c]) s)"
| "py_iter _ = Inl TypeError"

fun chunk :: "json \<Rightarrow> error + json list" where
  "chunk (JObj kv) =
     (case map_of kv ''chunk'' of None \<Rightarrow> Inl KeyError | Some c \<Rightarrow> py_iter c)"
| "chunk _ = Inl TypeError"

definition format_events :: "json list \<Rightarrow> error + message list" where
  "format_events events =
     and_then (collect_names Map.empty events) (\<lambda>display_names.
       format_loop display_names events)"

definition format_messages :: "json \<Rightarrow> error + message list" where
  "format_messages r = and_then (chunk r) format_events"

subsection \<open>Sorting and the fetch (lines 134-138 and 214-218)\<close>

text \<open>
  \<^verbatim>\<open>messages.sort(key=lambda x: x["timestamp"])\<close>. Python's sort is stable and compares
  keys with \<^verbatim>\<open><\<close> only. Integers and booleans compare as numbers, strings by their
  characters; \<^verbatim>\<open>None\<close> and dicts compare with nothing, and values of different kinds do
  not compare (\<^verbatim>\<open>TypeError\<close>). A list of at most one message is sorted without any
  comparison. A sort of two or more messages must compare every key with another one,
  and keys of two kinds across the kinds, so it raises unless all keys are numbers or
  all are strings. Where all keys are lists, whether a comparison raises depends on the
  pairs the sorting algorithm picks: that case is outside the model (\<open>None\<close>).
\<close>

fun is_num :: "json \<Rightarrow> bool" where
  "is_num (JInt i) = True"
| "is_num (JBool b) = True"
| "is_num _ = False"

fun num_val :: "json \<Rightarrow> int" where
  "num_val (JInt i) = i"
| "num_val (JBool b) = (if b then 1 else 0)"
| "num_val _ = 0"

fun is_str :: "json \<Rightarrow> bool" where
  "is_str (JStr s) = True"
| "is_str _ = False"

fun str_val :: "json \<Rightarrow> string" where
  "str_val (JStr s) = s"
| "str_val _ = []"

fun is_list :: "json \<Rightarrow> bool" where
  "is_list (JList xs) = True"
| "is_list _ = False"

definition sort_messages :: "message list \<Rightarrow> (error + message list) option" where
  "sort_messages messages =
     (if length messages \<le> 1 then Some (Inr messages)
      else if list_all (\<lambda>m. is_num (timestamp m)) messages
        then Some (Inr (sort_key (\<lambda>m. num_val (timestamp m)) messages))
      else if list_all (\<lambda>m. is_str (timestamp m)) messages
        then Some (Inr (sort_key (\<lambda>m. str_val (timestamp m)) messages))
      else if list_all (\<lambda>m. is_list (timestamp m)) messages then None
      else Some (Inl TypeError))"

record matrix_client =
  homeserver :: string
  user_id :: string
  device_id :: string
  room_id :: string
  token :: string

text \<open>The URL of \<^verbatim>\<open>_get_messages\<close> (lines 135-136).\<close>

definition messages_url :: "matrix_client \<Rightarrow> string" where
  "messages_url self =
     homeserver self @ ''/_matrix/client/v3/rooms/'' @ room_id self
       @ ''/messages?access_token='' @ token self"

text \<open>
  \<^verbatim>\<open>get_messages\<close>: \<open>net\<close> is the homeserver, the JSON it answers to a GET of a URL
  (a request that fails is not modelled).
\<close>

definition get_messages :: "(string \<Rightarrow> json) \<Rightarrow> matrix_client \<Rightarrow> (error + message list) option" where
  "get_messages net self =
     (let r = net (messages_url self)
      in case format_messages r of
           Inl e \<Rightarrow> Some (Inl e)
         | Inr messages \<Rightarrow> sort_messages messages)"

subsection \<open>Notions used to state the properties\<close>

text \<open>
  The spec's \<open>relation\<close> of a message, read off the two flags in the order the source
  tests them (lines 178-182, and again lines 383-388): the thread flag first.
\<close>

datatype relation = Plain | Reply | Threaded

definition relation :: "message \<Rightarrow> relation" where
  "relation m = (if is_thread m then Threaded else if is_reply m then Reply else Plain)"

text \<open>
  The entry of a dict under a key, \<open>JNull\<close> where there is none and where the value is
  not a dict: the path \<open>content.m.relates_to.event_id\<close> of an event \<open>e\<close> is
  \<open>jget (jget (jget e ''content'') ''m.relates_to'') ''event_id''\<close>.
\<close>

fun jget :: "json \<Rightarrow> string \<Rightarrow> json" where
  "jget (JObj kv) key = dict_get kv key JNull"
| "jget _ key = JNull"

text \<open>
  Python's \<^verbatim>\<open>a <= b\<close> on two sort keys that compare, two numbers or two strings, and
  the keys that the sort takes for equal.
\<close>

definition ts_le :: "json \<Rightarrow> json \<Rightarrow> bool" where
  "ts_le a b =
     ((is_num a \<and> is_num b \<and> num_val a \<le> num_val b)
      \<or> (is_str a \<and> is_str b \<and> str_val a \<le> str_val b))"

definition ts_eq :: "json \<Rightarrow> json \<Rightarrow> bool" where
  "ts_eq a b = (ts_le a b \<and> ts_le b a)"

text \<open>
  The membership fact of an event, in the words of the specification: the sender and the
  display name of a member event in which both are present and not empty (truthy, as the
  source tests them). \<open>sets_name e k\<close>: the event has a fact for the sender whose
  dictionary key is \<open>k\<close>.
\<close>

definition membership_fact :: "json \<Rightarrow> (json \<times> json) option" where
  "membership_fact e =
     (let s = jget e ''sender''; d = jget (jget e ''content'') ''displayname''
      in if jget e ''type'' = JStr ''m.room.member'' \<and> truthy s \<and> truthy d
         then Some (s, d) else None)"

definition sets_name :: "json \<Rightarrow> dict_key \<Rightarrow> bool" where
  "sets_name e k =
     (case membership_fact e of None \<Rightarrow> False | Some (s, d) \<Rightarrow> hash_key s = Inr k)"

text \<open>
  The kinds of events: a message event, a dict, and a dict whose type is neither that of
  a message nor that of a member event.
\<close>

definition is_message :: "json \<Rightarrow> bool" where
  "is_message e = (jget e ''type'' = JStr ''m.room.message'')"

fun is_dict :: "json \<Rightarrow> bool" where
  "is_dict (JObj kv) = True"
| "is_dict _ = False"

definition is_other :: "json \<Rightarrow> bool" where
  "is_other e =
     (is_dict e \<and> jget e ''type'' \<noteq> JStr ''m.room.message''
      \<and> jget e ''type'' \<noteq> JStr ''m.room.member'')"

text \<open>
  The events that the body of the \<^verbatim>\<open>try\<close> formats, the sender aside. An identifier is
  shortened without an exception when it is a string or falsy (\<open>id_ok\<close>). The fields of
  an event are well formed (\<open>fields_ok\<close>) when \<open>content\<close> is a dict or missing,
  \<open>m.relates_to\<close> in it is a dict or missing, the related event id that lines 178-182
  read is such an identifier (for a reply, \<open>m.in_reply_to\<close> being a dict), and so is
  \<open>event_id\<close>.
\<close>

definition id_ok :: "json \<Rightarrow> bool" where
  "id_ok x = (is_str x \<or> \<not> truthy x)"

definition related_ok :: "(string \<times> json) list \<Rightarrow> bool" where
  "related_ok rt =
     (if dict_get rt ''rel_type'' JNull = JStr ''m.thread''
      then id_ok (dict_get rt ''event_id'' JNull)
      else if map_of rt ''m.in_reply_to'' \<noteq> None
      then (case dict_get rt ''m.in_reply_to'' (JObj []) of
              JObj x \<Rightarrow> id_ok (dict_get x ''event_id'' JNull)
            | _ \<Rightarrow> False)
      else True)"

definition fields_ok :: "(string \<times> json) list \<Rightarrow> bool" where
  "fields_ok ev =
     ((case dict_get ev ''content'' (JObj []) of
         JObj c \<Rightarrow>
           (case dict_get c ''m.relates_to'' (JObj []) of
              JObj rt \<Rightarrow> related_ok rt
            | _ \<Rightarrow> False)
       | _ \<Rightarrow> False)
      \<and> id_ok (dict_get ev ''event_id'' (JStr [])))"

subsection \<open>Example inputs\<close>

definition scenario_member :: json where
  "scenario_member =
     JObj [(''type'', JStr ''m.room.member''), (''sender'', JStr ''@a''),
           (''content'', JObj [(''displayname'', JStr ''Alice'')])]"

definition scenario_first :: json where
  "scenario_first =
     JObj [(''type'', JStr ''m.room.message''), (''sender'', JStr ''@a''),
           (''content'', JObj [(''body'', JStr ''hi'')]), (''origin_server_ts'', JInt 100)]"

definition scenario_second :: json where
  "scenario_second =
     JObj [(''type'', JStr ''m.room.message''), (''sender'', JStr ''@b''),
           (''content'', JObj [(''body'', JStr ''re''),
              (''m.relates_to'',
               JObj [(''m.in_reply_to'', JObj [(''event_id'', JStr ''$xxxx1111'')])])]),
           (''origin_server_ts'', JInt 100)]"

definition scenario_response :: json where
  "scenario_response = JObj [(''chunk'', JList [scenario_member, scenario_first, scenario_second])]"

definition scenario_first_message :: message where
  "scenario_first_message =
     \<lparr>nickname = JStr ''@a'', display_name = JStr ''Alice'', sender = JStr ''@a'',
      body = JStr ''hi'', timestamp = JInt 100, is_reply = False, is_thread = False,
      reply_to_event_id = JNull, event_hash = ''unknown'', reply_to_hash = None,
      raw_event = scenario_first\<rparr>"

definition scenario_second_message :: message where
  "scenario_second_message =
     \<lparr>nickname = JStr ''@b'', display_name = JNull, sender = JStr ''@b'',
      body = JStr ''re'', timestamp = JInt 100, is_reply = True, is_thread = False,
      reply_to_event_id = JStr ''$xxxx1111'', event_hash = ''unknown'',
      reply_to_hash = Some ''xxxx1111'', raw_event = scenario_second\<rparr>"

definition both_markers_event :: json where
  "both_markers_event =
     JObj [(''type'', JStr ''m.room.message''), (''sender'', JStr ''@a:hs''),
           (''content'', JObj [(''body'', JStr ''both''),
              (''m.relates_to'',
               JObj [(''rel_type'', JStr ''m.thread''), (''event_id'', JStr ''$root0001''),
                     (''m.in_reply_to'', JObj [(''event_id'', JStr ''$stale002'')])])]),
           (''origin_server_ts'', JInt 7), (''event_id'', JStr ''!room:hs$ev2'')]"

definition both_markers_message :: message where
  "both_markers_message =
     \<lparr>nickname = JStr ''@a:hs'', display_name = JNull, sender = JStr ''@a:hs'',
      body = JStr ''both'', timestamp = JInt 7, is_reply = True, is_thread = True,
      reply_to_event_id = JStr ''$root0001'', event_hash = ''ev2'',
      reply_to_hash = Some ''root0001'', raw_event = both_markers_event\<rparr>"

definition empty_related_event :: json where
  "empty_related_event =
     JObj [(''type'', JStr ''m.room.message''), (''sender'', JStr ''@a:hs''),
           (''content'', JObj [(''body'', JStr ''x''),
              (''m.relates_to'',
               JObj [(''rel_type'', JStr ''m.thread''), (''event_id'', JStr [])])]),
           (''origin_server_ts'', JInt 9), (''event_id'', JStr ''$ev3'')]"

definition empty_related_message :: message where
  "empty_related_message =
     \<lparr>nickname = JStr ''@a:hs'', display_name = JNull, sender = JStr ''@a:hs'',
      body = JStr ''x'', timestamp = JInt 9, is_reply = False, is_thread = True,
      reply_to_event_id = JStr [], event_hash = ''ev3'', reply_to_hash = None,
      raw_event = empty_related_event\<rparr>"

definition thread_no_id_event :: json where
  "thread_no_id_event =
     JObj [(''type'', JStr ''m.room.message''), (''sender'', JStr ''@a:hs''),
           (''content'', JObj [(''body'', JStr ''in thread''),
              (''m.relates_to'', JObj [(''rel_type'', JStr ''m.thread'')])]),
           (''origin_server_ts'', JInt 5), (''event_id'', JStr ''$ev1'')]"

definition thread_no_id_message :: message where
  "thread_no_id_message =
     \<lparr>nickname = JStr ''@a:hs'', display_name = JNull, sender = JStr ''@a:hs'',
      body = JStr ''in thread'', timestamp = JInt 5, is_reply = False, is_thread = True,
      reply_to_event_id = JNull, event_hash = ''ev1'', reply_to_hash = None,
      raw_event = thread_no_id_event\<rparr>"

definition client_a :: matrix_client where
  "client_a = \<lparr>homeserver = ''https://hs.example'', user_id = ''@bot:hs.example'',
     device_id = ''DEV1'', room_id = ''!room1:hs.example'', token = ''secret1''\<rparr>"

definition client_b :: matrix_client where
  "client_b = \<lparr>homeserver = ''https://other.example'', user_id = ''@me:other.example'',
     device_id = ''DEV2'', room_id = ''!room2:other.example'', token = ''secret2''\<rparr>"

definition unsorted_response :: json where
  "unsorted_response =
     JObj [(''chunk'', JList
       [JObj [(''type'', JStr ''m.room.message''), (''sender'', JStr ''@a''),
              (''content'', JObj [(''body'', JStr ''late'')]), (''origin_server_ts'', JInt 300)],
        JObj [(''type'', JStr ''m.room.message''), (''sender'', JStr ''@b''),
              (''content'', JObj [(''body'', JStr ''no time'')])],
        JObj [(''type'', JStr ''m.room.message''), (''sender'', JStr ''@c''),
              (''content'', JObj [(''body'', JStr ''early'')]), (''origin_server_ts'', JInt 100)],
        JObj [(''type'', JStr ''m.room.message''), (''sender'', JStr ''@d''),
              (''content'', JObj [(''body'', JStr ''tie'')]), (''origin_server_ts'', JInt 300)]])]"

definition plain_message :: "string \<Rightarrow> string \<Rightarrow> json \<Rightarrow> json \<Rightarrow> message" where
  "plain_message s b t raw =
     \<lparr>nickname = JStr s, display_name = JNull, sender = JStr s, body = JStr b,
      timestamp = t, is_reply = False, is_thread = False, reply_to_event_id = JNull,
      event_hash = ''unknown'', reply_to_hash = None, raw_event = raw\<rparr>"

definition unsorted_messages :: "message list" where
  "unsorted_messages =
     [plain_message ''@a'' ''late'' (JInt 300)
        (JObj [(''type'', JStr ''m.room.message''), (''sender'', JStr ''@a''),
              (''content'', JObj [(''body'', JStr ''late'')]), (''origin_server_ts'', JInt 300)]),
      plain_message ''@b'' ''no time'' (JInt 0)
        (JObj [(''type'', JStr ''m.room.message''), (''sender'', JStr ''@b''),
              (''content'', JObj [(''body'', JStr ''no time'')])]),
      plain_message ''@c'' ''early'' (JInt 100)
        (JObj [(''type'', JStr ''m.room.message''), (''sender'', JStr ''@c''),
              (''content'', JObj [(''body'', JStr ''early'')]), (''origin_server_ts'', JInt 100)]),
      plain_message ''@d'' ''tie'' (JInt 300)
        (JObj [(''type'', JStr ''m.room.message''), (''sender'', JStr ''@d''),
              (''content'', JObj [(''body'', JStr ''tie'')]), (''origin_server_ts'', JInt 300)])]"

definition sorted_messages :: "message list" where
  "sorted_messages =
     [unsorted_messages ! 1, unsorted_messages ! 2, unsorted_messages ! 0, unsorted_messages ! 3]"

definition member_event :: "json \<Rightarrow> json \<Rightarrow> json" where
  "member_event s d =
     JObj [(''type'', JStr ''m.room.member''), (''sender'', s),
           (''content'', JObj [(''displayname'', d)])]"





definition reaction_event :: json where
  "reaction_event =
     JObj [(''type'', JStr ''m.reaction''), (''sender'', JStr ''@a''),
           (''content'', JObj [(''m.relates_to'',
              JObj [(''rel_type'', JStr ''m.annotation''), (''key'', JStr ''+1'')])])]"

definition broken_fields :: "(string \<times> json) list" where
  "broken_fields =
     [(''type'', JStr ''m.room.message''), (''sender'', JStr ''@b''), (''content'', JNull),
      (''origin_server_ts'', JInt 50)]"

definition nosender_fields :: "(string \<times> json) list" where
  "nosender_fields =
     [(''type'', JStr ''m.room.message''), (''content'', JObj [(''body'', JStr ''anon'')]),
      (''origin_server_ts'', JInt 4), (''event_id'', JStr ''$e9'')]"

definition nosender_message :: message where
  "nosender_message =
     \<lparr>nickname = JStr ''Unknown'', display_name = JStr ''Nobody'', sender = JStr ''Unknown'',
      body = JStr ''anon'', timestamp = JInt 4, is_reply = False, is_thread = False,
      reply_to_event_id = JNull, event_hash = ''e9'', reply_to_hash = None,
      raw_event = JObj nosender_fields\<rparr>"

definition nosender_null_fields :: "(string \<times> json) list" where
  "nosender_null_fields =
     [(''type'', JStr ''m.room.message''), (''content'', JNull),
      (''origin_server_ts'', JInt 4), (''event_id'', JStr ''$e8'')]"

section \<open>Properties\<close>

subsection \<open>Basic facts\<close>

lemma and_then_Inl [simp]: "and_then (Inl e) f = Inl e"
  by (simp add: and_then_def)

lemma and_then_Inr [simp]: "and_then (Inr v) f = f v"
  by (simp add: and_then_def)

lemma and_then_eq_Inr: "and_then x f = Inr y \<longleftrightarrow> (\<exists>v. x = Inr v \<and> f v = Inr y)"
  by (cases x) simp_all

lemma py_get_eq_Inr: "py_get j key d = Inr v \<longleftrightarrow> (\<exists>kv. j = JObj kv \<and> v = dict_get kv key d)"
  by (cases j) auto

lemma split_from_no_sep: "c \<notin> set s \<Longrightarrow> split_from c cur s = [cur @ s]"
  by (induction s arbitrary: cur) auto

lemma split_from_not_Nil [simp]: "split_from c cur s \<noteq> []"
  by (induction s arbitrary: cur) auto

lemma last_split_from_sep:
  "last (split_from c cur (pre @ c # suf)) = last (split_from c [] suf)"
  by (induction pre arbitrary: cur) simp_all

lemma short_hash_after_last:
  "CHR ''$'' \<notin> set suf \<Longrightarrow> short_hash (pre @ CHR ''$'' # suf) = take 8 suf"
  by (simp add: short_hash_def py_split_def last_split_from_sep split_from_no_sep)

lemma short_hash_no_sep: "CHR ''$'' \<notin> set s \<Longrightarrow> short_hash s = take 8 s"
  by (simp add: short_hash_def py_split_def split_from_no_sep)

lemma names_get_eq_Inr:
  "names_get names s = Inr d \<longleftrightarrow>
     (\<exists>k. hash_key s = Inr k \<and> d = (case names k of None \<Rightarrow> JNull | Some v \<Rightarrow> v))"
  by (auto simp: names_get_def and_then_eq_Inr)

lemma and_thenE:
  assumes "and_then x f = Inr y"
  obtains v where "x = Inr v" and "f v = Inr y"
  using assms by (cases x) simp_all

lemma py_in_get_Inr:
  assumes "py_in key j = Inr b" and "py_get j key2 d = Inr v"
  shows "\<exists>kv. j = JObj kv \<and> b = (map_of kv key \<noteq> None) \<and> v = dict_get kv key2 d"
  using assms by (cases j) auto

lemma format_event_Inr:
  assumes "format_event names ev = Inr m"
  shows "\<exists>c rt.
      dict_get ev ''content'' (JObj []) = JObj c
    \<and> dict_get c ''m.relates_to'' (JObj []) = JObj rt
    \<and> sender m = dict_get ev ''sender'' (JStr ''Unknown'')
    \<and> nickname m = sender m
    \<and> names_get names (sender m) = Inr (display_name m)
    \<and> body m = dict_get c ''body'' (JStr [])
    \<and> is_reply m = (map_of rt ''m.in_reply_to'' \<noteq> None)
    \<and> is_thread m = (dict_get rt ''rel_type'' JNull = JStr ''m.thread'')
    \<and> (if is_thread m then Inr (dict_get rt ''event_id'' JNull)
        else if is_reply m then py_get (dict_get rt ''m.in_reply_to'' (JObj [])) ''event_id'' JNull
        else Inr JNull) = Inr (reply_to_event_id m)
    \<and> timestamp m = dict_get ev ''origin_server_ts'' (JInt 0)
    \<and> hash_or_unknown (dict_get ev ''event_id'' (JStr [])) = Inr (event_hash m)
    \<and> (if truthy (reply_to_event_id m)
        then map_sum id Some (hash_or_unknown (reply_to_event_id m))
        else Inr None) = Inr (reply_to_hash m)
    \<and> raw_event m = JObj ev"
proof -
  from assms [unfolded format_event_def Let_def]
  obtain dn b r ir rty rid eh rh where
    dn: "names_get names (dict_get ev ''sender'' (JStr ''Unknown'')) = Inr dn"
    and b: "py_get (dict_get ev ''content'' (JObj [])) ''body'' (JStr []) = Inr b"
    and r: "py_get (dict_get ev ''content'' (JObj [])) ''m.relates_to'' (JObj []) = Inr r"
    and ir: "py_in ''m.in_reply_to'' r = Inr ir"
    and rty: "py_get r ''rel_type'' JNull = Inr rty"
    and rid: "(if rty = JStr ''m.thread'' then py_get r ''event_id'' JNull
               else if ir then and_then (py_get r ''m.in_reply_to'' (JObj []))
                      (\<lambda>in_reply_to. py_get in_reply_to ''event_id'' JNull)
               else Inr JNull) = Inr rid"
    and eh: "hash_or_unknown (dict_get ev ''event_id'' (JStr [])) = Inr eh"
    and rh: "(if truthy rid then map_sum id Some (hash_or_unknown rid) else Inr None) = Inr rh"
    and m: "\<lparr>nickname = dict_get ev ''sender'' (JStr ''Unknown''), display_name = dn,
                 sender = dict_get ev ''sender'' (JStr ''Unknown''),
                 body = b, timestamp = dict_get ev ''origin_server_ts'' (JInt 0), is_reply = ir,
                 is_thread = (rty = JStr ''m.thread''), reply_to_event_id = rid,
                 event_hash = eh, reply_to_hash = rh, raw_event = JObj ev\<rparr> = m"
    apply (elim and_thenE)
    apply (drule Inr_inject)
    apply fast
    done
  from b obtain c where c: "dict_get ev ''content'' (JObj []) = JObj c"
    and b': "b = dict_get c ''body'' (JStr [])"
    by (auto simp: py_get_eq_Inr)
  from r c have r': "r = dict_get c ''m.relates_to'' (JObj [])" by simp
  from py_in_get_Inr [OF ir rty] obtain rt where rt: "r = JObj rt"
    and ir': "ir = (map_of rt ''m.in_reply_to'' \<noteq> None)"
    and rty': "rty = dict_get rt ''rel_type'' JNull"
    by blast
  have rid': "(if rty = JStr ''m.thread'' then Inr (dict_get rt ''event_id'' JNull)
        else if ir then py_get (dict_get rt ''m.in_reply_to'' (JObj [])) ''event_id'' JNull
        else Inr JNull) = Inr rid"
    using rid by (simp add: rt split: if_splits)
  show ?thesis
    apply (rule exI [of _ c], rule exI [of _ rt])
    using c r' rt b' ir' rty' rid' eh rh dn
    by (simp add: m [symmetric] split del: if_split cong: if_cong)
qed

subsection \<open>Facts about the second pass\<close>

lemmas run_defs = format_messages_def format_events_def collect_step_def dict_get_def
  names_set_def names_get_def format_event_def hash_or_unknown_def short_hash_def
  py_split_def Let_def

lemma map_sum_id_eq_Inr: "map_sum id g x = Inr y \<longleftrightarrow> (\<exists>v. x = Inr v \<and> y = g v)"
  by (cases x) auto

lemma format_loop_obj:
  "format_loop names (JObj ev # rest) =
     (if dict_get ev ''type'' JNull = JStr ''m.room.message'' then
        (case format_event names ev of
           Inl e \<Rightarrow> format_loop names rest
         | Inr m \<Rightarrow> map_sum id ((#) m) (format_loop names rest))
      else format_loop names rest)"
  by simp

lemma format_loop_not_obj:
  "\<forall>ev. event \<noteq> JObj ev \<Longrightarrow> format_loop names (event # rest) = Inl AttributeError"
  by (cases event) simp_all

lemma format_loop_mem:
  "format_loop names evs = Inr ms \<Longrightarrow> m \<in> set ms \<Longrightarrow>
     \<exists>ev. JObj ev \<in> set evs \<and> dict_get ev ''type'' JNull = JStr ''m.room.message''
       \<and> format_event names ev = Inr m"
proof (induction evs arbitrary: ms)
  case Nil
  then show ?case by simp
next
  case (Cons event rest)
  show ?case
  proof (cases event)
    case (JObj ev)
    from Cons.prems Cons.IH show ?thesis
      unfolding JObj format_loop_obj
      by (auto simp: map_sum_id_eq_Inr split: if_splits sum.splits; blast)
  qed (use Cons.prems in \<open>simp_all add: format_loop_not_obj\<close>)
qed

lemma format_messages_Inr:
  "format_messages r = Inr ms \<longleftrightarrow>
     (\<exists>evs names. chunk r = Inr evs \<and> collect_names Map.empty evs = Inr names
        \<and> format_loop names evs = Inr ms)"
  by (auto simp: format_messages_def format_events_def and_then_eq_Inr)

lemma jget_of_default:
  "dict_get kv k (JObj []) = JObj c \<Longrightarrow> jget (dict_get kv k JNull) k2 = dict_get c k2 JNull"
  by (auto simp: dict_get_def split: option.splits)

lemma format_event_related:
  assumes "format_event names ev = Inr m"
  shows "reply_to_event_id m =
     (case relation m of
        Plain \<Rightarrow> JNull
      | Threaded \<Rightarrow> jget (jget (jget (raw_event m) ''content'') ''m.relates_to'') ''event_id''
      | Reply \<Rightarrow> jget (jget (jget (jget (raw_event m) ''content'') ''m.relates_to'')
                   ''m.in_reply_to'') ''event_id'')"
proof -
  from format_event_Inr [OF assms] obtain c rt where
    c: "dict_get ev ''content'' (JObj []) = JObj c"
    and rt: "dict_get c ''m.relates_to'' (JObj []) = JObj rt"
    and rid: "(if is_thread m then Inr (dict_get rt ''event_id'' JNull)
        else if is_reply m then py_get (dict_get rt ''m.in_reply_to'' (JObj [])) ''event_id'' JNull
        else Inr JNull) = Inr (reply_to_event_id m)"
    and raw: "raw_event m = JObj ev"
    by blast
  have rel: "\<And>k. jget (jget (jget (raw_event m) ''content'') ''m.relates_to'') k
      = dict_get rt k JNull"
    by (simp add: raw jget_of_default [OF c] jget_of_default [OF rt])
  show ?thesis
  proof (cases "is_thread m")
    case True
    with rid show ?thesis by (simp add: relation_def rel)
  next
    case False
    show ?thesis
    proof (cases "is_reply m")
      case True
      with rid \<open>\<not> is_thread m\<close> obtain x where
        x: "dict_get rt ''m.in_reply_to'' (JObj []) = JObj x"
        and "reply_to_event_id m = dict_get x ''event_id'' JNull"
        by (auto simp: py_get_eq_Inr)
      then show ?thesis using True False
        by (simp add: relation_def rel jget_of_default [OF x])
    next
      case False
      with rid \<open>\<not> is_thread m\<close> show ?thesis by (simp add: relation_def)
    qed
  qed
qed

subsection \<open>C1: the relation and the related event id\<close>

text \<open>
  C1, as the code has it. Every formatted message has exactly one relation, Plain, Reply
  or Threaded. A message with a related event id is never Plain, and the related event
  id is the entry the relation reads: none for Plain, \<open>content.m.relates_to.event_id\<close>
  for Threaded, \<open>content.m.relates_to.m.in_reply_to.event_id\<close> for Reply. The source
  reads that entry with \<^verbatim>\<open>get\<close>, so a Threaded or Reply message whose entry is missing
  or null has no related event id.
\<close>

theorem relation_and_related_event_id:
  assumes "format_messages r = Inr ms" and "m \<in> set ms"
  shows "(relation m = Plain \<or> relation m = Reply \<or> relation m = Threaded)
    \<and> (reply_to_event_id m \<noteq> JNull \<longrightarrow> relation m \<noteq> Plain)
    \<and> reply_to_event_id m =
        (case relation m of
           Plain \<Rightarrow> JNull
         | Threaded \<Rightarrow> jget (jget (jget (raw_event m) ''content'') ''m.relates_to'') ''event_id''
         | Reply \<Rightarrow> jget (jget (jget (jget (raw_event m) ''content'') ''m.relates_to'')
                      ''m.in_reply_to'') ''event_id'')"
proof -
  from assms obtain names ev where ev: "format_event names ev = Inr m"
    by (auto simp: format_messages_Inr dest: format_loop_mem)
  have rel: "relation m = Plain \<or> relation m = Reply \<or> relation m = Threaded"
    by (cases "relation m") simp_all
  note rid = format_event_related [OF ev]
  have "reply_to_event_id m \<noteq> JNull \<longrightarrow> relation m \<noteq> Plain"
    using rid by auto
  with rel rid show ?thesis by blast
qed

text \<open>
  A thread message whose \<open>m.relates_to\<close> has no \<open>event_id\<close> is formatted as Threaded
  with no related event id: presence of the id is not equivalent to a relation other
  than Plain.
\<close>

theorem related_event_id_iff_counterexample:
  "format_messages (JObj [(''chunk'', JList [thread_no_id_event])]) = Inr [thread_no_id_message]
   \<and> relation thread_no_id_message = Threaded
   \<and> reply_to_event_id thread_no_id_message = JNull"
  by (simp add: thread_no_id_event_def thread_no_id_message_def run_defs relation_def)

lemmas example_defs = scenario_member_def scenario_first_def scenario_second_def
  scenario_response_def scenario_first_message_def scenario_second_message_def
  both_markers_event_def both_markers_message_def empty_related_event_def
  empty_related_message_def thread_no_id_event_def thread_no_id_message_def

lemma scenario_formatted:
  "format_messages scenario_response = Inr [scenario_first_message, scenario_second_message]"
  by (simp add: example_defs run_defs)

theorem relation_and_related_event_id_witness:
  "format_messages scenario_response = Inr [scenario_first_message, scenario_second_message]
   \<and> reply_to_event_id scenario_second_message \<noteq> JNull
   \<and> relation scenario_second_message \<noteq> Plain
   \<and> reply_to_event_id scenario_second_message =
        (case relation scenario_second_message of
           Plain \<Rightarrow> JNull
         | Threaded \<Rightarrow> jget (jget (jget (raw_event scenario_second_message) ''content'')
              ''m.relates_to'') ''event_id''
         | Reply \<Rightarrow> jget (jget (jget (jget (raw_event scenario_second_message) ''content'')
              ''m.relates_to'') ''m.in_reply_to'') ''event_id'')"
proof -
  have mem: "scenario_second_message \<in> set [scenario_first_message, scenario_second_message]"
    by simp
  note t = relation_and_related_event_id [OF scenario_formatted mem]
  have present: "reply_to_event_id scenario_second_message \<noteq> JNull"
    by (simp add: scenario_second_message_def)
  with t have "relation scenario_second_message \<noteq> Plain" by blast
  with t present scenario_formatted show ?thesis by blast
qed

subsection \<open>C2: thread precedence\<close>

text \<open>
  C2. A formatted message whose event carries both markers, the key \<open>m.in_reply_to\<close> in
  \<open>m.relates_to\<close> and \<open>rel_type\<close> equal to \<open>m.thread\<close>, is Threaded, and its related event
  id is \<open>m.relates_to.event_id\<close> (absent when that entry is), whatever \<open>m.in_reply_to\<close>
  holds.
\<close>

theorem thread_precedence:
  assumes "format_messages r = Inr ms" and "m \<in> set ms"
    and "raw_event m = JObj ev"
    and "map_of ev ''content'' = Some (JObj c)"
    and "map_of c ''m.relates_to'' = Some (JObj rt)"
    and "map_of rt ''m.in_reply_to'' = Some x"
    and "map_of rt ''rel_type'' = Some (JStr ''m.thread'')"
  shows "relation m = Threaded \<and> is_thread m \<and> is_reply m
    \<and> reply_to_event_id m = dict_get rt ''event_id'' JNull"
proof -
  from assms(1,2) obtain names ev' where ev': "format_event names ev' = Inr m"
    by (auto simp: format_messages_Inr dest: format_loop_mem)
  from format_event_Inr [OF ev'] obtain c' rt' where
    c': "dict_get ev' ''content'' (JObj []) = JObj c'"
    and rt': "dict_get c' ''m.relates_to'' (JObj []) = JObj rt'"
    and ir: "is_reply m = (map_of rt' ''m.in_reply_to'' \<noteq> None)"
    and it: "is_thread m = (dict_get rt' ''rel_type'' JNull = JStr ''m.thread'')"
    and rid: "(if is_thread m then Inr (dict_get rt' ''event_id'' JNull)
        else if is_reply m then py_get (dict_get rt' ''m.in_reply_to'' (JObj [])) ''event_id'' JNull
        else Inr JNull) = Inr (reply_to_event_id m)"
    and raw: "raw_event m = JObj ev'"
    by blast
  from raw assms(3) have "ev' = ev" by simp
  with c' assms(4) have "c' = c" by (simp add: dict_get_def)
  with rt' assms(5) have "rt' = rt" by (simp add: dict_get_def)
  with ir it rid assms(6,7) show ?thesis
    by (simp add: relation_def dict_get_def)
qed

theorem thread_precedence_witness:
  "format_messages (JObj [(''chunk'', JList [both_markers_event])]) = Inr [both_markers_message]
   \<and> relation both_markers_message = Threaded
   \<and> is_thread both_markers_message \<and> is_reply both_markers_message
   \<and> reply_to_event_id both_markers_message = JStr ''$root0001''"
proof -
  have run: "format_messages (JObj [(''chunk'', JList [both_markers_event])])
      = Inr [both_markers_message]"
    by (simp add: example_defs run_defs)
  have mem: "both_markers_message \<in> set [both_markers_message]" by simp
  have raw: "raw_event both_markers_message = JObj
     [(''type'', JStr ''m.room.message''), (''sender'', JStr ''@a:hs''),
           (''content'', JObj [(''body'', JStr ''both''),
              (''m.relates_to'',
               JObj [(''rel_type'', JStr ''m.thread''), (''event_id'', JStr ''$root0001''),
                     (''m.in_reply_to'', JObj [(''event_id'', JStr ''$stale002'')])])]),
           (''origin_server_ts'', JInt 7), (''event_id'', JStr ''!room:hs$ev2'')]"
    by (simp add: both_markers_message_def both_markers_event_def)
  let ?rt = "[(''rel_type'', JStr ''m.thread''), (''event_id'', JStr ''$root0001''),
              (''m.in_reply_to'', JObj [(''event_id'', JStr ''$stale002'')])]"
  let ?c = "[(''body'', JStr ''both''), (''m.relates_to'', JObj ?rt)]"
  have "relation both_markers_message = Threaded \<and> is_thread both_markers_message
      \<and> is_reply both_markers_message
      \<and> reply_to_event_id both_markers_message = dict_get ?rt ''event_id'' JNull"
    by (rule thread_precedence [OF run mem raw, where c = ?c and rt = ?rt
          and x = "JObj [(''event_id'', JStr ''$stale002'')]"]) simp_all
  then show ?thesis using run by (simp add: dict_get_def)
qed

subsection \<open>C7: the scenario of the specification\<close>

text \<open>
  C7. The batch of a member event for \<open>@a\<close> with the display name Alice, a message of
  \<open>@a\<close> at 100 with no relation and a reply of \<open>@b\<close> at 100 to \<open>$xxxx1111\<close> gives two
  messages, in the order of the batch: the first with the display name Alice and the
  relation Plain, the second with no display name, the relation Reply and the related
  hash \<open>xxxx1111\<close>.
\<close>

theorem scenario_two_messages:
  "get_messages (\<lambda>url. scenario_response) self
     = Some (Inr [scenario_first_message, scenario_second_message])
   \<and> raw_event scenario_first_message = scenario_first
   \<and> raw_event scenario_second_message = scenario_second
   \<and> timestamp scenario_first_message = JInt 100
   \<and> timestamp scenario_second_message = JInt 100
   \<and> display_name scenario_first_message = JStr ''Alice''
   \<and> relation scenario_first_message = Plain
   \<and> display_name scenario_second_message = JNull
   \<and> relation scenario_second_message = Reply
   \<and> reply_to_hash scenario_second_message = Some ''xxxx1111''"
proof -
  have "sort_messages [scenario_first_message, scenario_second_message]
      = Some (Inr [scenario_first_message, scenario_second_message])"
    by (simp add: sort_messages_def scenario_first_message_def scenario_second_message_def)
  then have "get_messages (\<lambda>url. scenario_response) self
     = Some (Inr [scenario_first_message, scenario_second_message])"
    by (simp add: get_messages_def scenario_formatted)
  then show ?thesis
    by (simp add: scenario_first_message_def scenario_second_message_def relation_def)
qed

subsection \<open>C4: the hash shortener\<close>

text \<open>
  C4, as the code has it. The short hash of a string is the first 8 characters of what
  follows its last \<open>$\<close> (of the string itself when it has no \<open>$\<close>); an empty or absent identifier gives \<open>unknown\<close>; the identifier
  \<open>!room:server$abcdefgh12345\<close> gives \<open>abcdefgh\<close>. The event hash is always the shortener
  applied to the \<open>event_id\<close> of the event (the empty string when there is none). The
  related hash is the shortener applied to the related event id when that id is truthy,
  that is present and not empty, and is absent otherwise.
\<close>

theorem hash_shortener:
  "(\<forall>pre suf. CHR ''$'' \<notin> set suf \<longrightarrow> short_hash (pre @ CHR ''$'' # suf) = take 8 suf)
   \<and> (\<forall>t. CHR ''$'' \<notin> set t \<longrightarrow> short_hash t = take 8 t)
   \<and> hash_or_unknown (JStr s) = Inr (if s = [] then ''unknown'' else short_hash s)
   \<and> hash_or_unknown JNull = Inr ''unknown''
   \<and> short_hash ''!room:server$abcdefgh12345'' = ''abcdefgh''
   \<and> (format_event names ev = Inr m \<longrightarrow>
        hash_or_unknown (dict_get ev ''event_id'' (JStr [])) = Inr (event_hash m)
        \<and> (if truthy (reply_to_event_id m)
            then \<exists>h. hash_or_unknown (reply_to_event_id m) = Inr h \<and> reply_to_hash m = Some h
            else reply_to_hash m = None))"
proof -
  have ex: "short_hash ''!room:server$abcdefgh12345'' = ''abcdefgh''"
    by (simp add: short_hash_def py_split_def)
  have ev: "format_event names ev = Inr m \<longrightarrow>
        hash_or_unknown (dict_get ev ''event_id'' (JStr [])) = Inr (event_hash m)
        \<and> (if truthy (reply_to_event_id m)
            then \<exists>h. hash_or_unknown (reply_to_event_id m) = Inr h \<and> reply_to_hash m = Some h
            else reply_to_hash m = None)"
  proof
    assume "format_event names ev = Inr m"
    from format_event_Inr [OF this] show
      "hash_or_unknown (dict_get ev ''event_id'' (JStr [])) = Inr (event_hash m)
        \<and> (if truthy (reply_to_event_id m)
            then \<exists>h. hash_or_unknown (reply_to_event_id m) = Inr h \<and> reply_to_hash m = Some h
            else reply_to_hash m = None)"
      by (auto simp: map_sum_id_eq_Inr)
  qed
  have sep: "\<forall>pre suf. CHR ''$'' \<notin> set suf \<longrightarrow>
      short_hash (pre @ CHR ''$'' # suf) = take 8 suf"
    by (simp add: short_hash_after_last)
  have nosep: "\<forall>t. CHR ''$'' \<notin> set t \<longrightarrow> short_hash t = take 8 t"
    by (simp add: short_hash_no_sep)
  have str: "hash_or_unknown (JStr s) = Inr (if s = [] then ''unknown'' else short_hash s)"
    by (simp add: hash_or_unknown_def)
  have none: "hash_or_unknown JNull = Inr ''unknown''"
    by (simp add: hash_or_unknown_def)
  from sep nosep str none ex ev show ?thesis by blast
qed

theorem hash_shortener_witness:
  "short_hash (''!room:server'' @ CHR ''$'' # ''abcdefgh12345'') = take 8 ''abcdefgh12345''
   \<and> format_event Map.empty
        [(''type'', JStr ''m.room.message''), (''sender'', JStr ''@a:hs''),
           (''content'', JObj [(''body'', JStr ''both''),
              (''m.relates_to'',
               JObj [(''rel_type'', JStr ''m.thread''), (''event_id'', JStr ''$root0001''),
                     (''m.in_reply_to'', JObj [(''event_id'', JStr ''$stale002'')])])]),
           (''origin_server_ts'', JInt 7), (''event_id'', JStr ''!room:hs$ev2'')]
       = Inr both_markers_message
   \<and> hash_or_unknown (JStr ''!room:hs$ev2'') = Inr (event_hash both_markers_message)
   \<and> (\<exists>h. hash_or_unknown (reply_to_event_id both_markers_message) = Inr h
          \<and> reply_to_hash both_markers_message = Some h)"
proof -
  let ?ev = "[(''type'', JStr ''m.room.message''), (''sender'', JStr ''@a:hs''),
           (''content'', JObj [(''body'', JStr ''both''),
              (''m.relates_to'',
               JObj [(''rel_type'', JStr ''m.thread''), (''event_id'', JStr ''$root0001''),
                     (''m.in_reply_to'', JObj [(''event_id'', JStr ''$stale002'')])])]),
           (''origin_server_ts'', JInt 7), (''event_id'', JStr ''!room:hs$ev2'')]"
  note t = hash_shortener [where s = "[]" and names = Map.empty and ev = ?ev
      and m = both_markers_message]
  have sep: "CHR ''$'' \<notin> set ''abcdefgh12345''" by simp
  have run: "format_event Map.empty ?ev = Inr both_markers_message"
    by (simp add: example_defs run_defs)
  have tr: "truthy (reply_to_event_id both_markers_message)"
    by (simp add: both_markers_message_def)
  from t sep have h1: "short_hash (''!room:server'' @ CHR ''$'' # ''abcdefgh12345'')
      = take 8 ''abcdefgh12345''"
    by blast
  from t run have h2: "hash_or_unknown (dict_get ?ev ''event_id'' (JStr []))
      = Inr (event_hash both_markers_message)"
    by blast
  from t run tr have h3: "\<exists>h. hash_or_unknown (reply_to_event_id both_markers_message) = Inr h
          \<and> reply_to_hash both_markers_message = Some h"
    by simp
  from h2 have h2b: "hash_or_unknown (JStr ''!room:hs$ev2'') = Inr (event_hash both_markers_message)"
    by (simp add: dict_get_def)
  from h1 run h2b h3 show ?thesis by blast
qed

text \<open>
  A thread message whose \<open>m.relates_to.event_id\<close> is the empty string has a related event
  id, the empty string, and no related hash: the shortener is not applied to every
  related event id that is present.
\<close>

theorem related_hash_counterexample:
  "format_messages (JObj [(''chunk'', JList [empty_related_event])]) = Inr [empty_related_message]
   \<and> reply_to_event_id empty_related_message = JStr []
   \<and> reply_to_hash empty_related_message = None"
  by (simp add: example_defs run_defs)

subsection \<open>Facts about the sort\<close>

lemma unsorted_formatted: "format_messages unsorted_response = Inr unsorted_messages"
  by (simp add: unsorted_response_def unsorted_messages_def plain_message_def run_defs)

lemma unsorted_sorted: "sort_messages unsorted_messages = Some (Inr sorted_messages)"
  by (simp add: sort_messages_def unsorted_messages_def sorted_messages_def plain_message_def)

lemma sort_messages_Inr:
  assumes "sort_messages ms = Some (Inr out)"
  shows "(length ms \<le> 1 \<and> out = ms)
    \<or> (list_all (\<lambda>m. is_num (timestamp m)) ms
        \<and> out = sort_key (\<lambda>m. num_val (timestamp m)) ms)
    \<or> (list_all (\<lambda>m. is_str (timestamp m)) ms
        \<and> out = sort_key (\<lambda>m. str_val (timestamp m)) ms)"
  using assms by (auto simp: sort_messages_def split: if_splits)

lemma get_messages_Inr:
  "get_messages net self = Some (Inr out) \<longleftrightarrow>
     (\<exists>ms. format_messages (net (messages_url self)) = Inr ms
        \<and> sort_messages ms = Some (Inr out))"
  by (auto simp: get_messages_def Let_def split: sum.splits)

lemma sort_messages_set: "sort_messages ms = Some (Inr out) \<Longrightarrow> set out = set ms"
  by (auto dest!: sort_messages_Inr)

subsection \<open>C3: the output is sorted, and stably\<close>

lemma sorted_wrt_ts_le_num:
  assumes "list_all (\<lambda>m. is_num (timestamp m)) ms"
  shows "sorted_wrt (\<lambda>a b. ts_le (timestamp a) (timestamp b))
           (sort_key (\<lambda>m. num_val (timestamp m)) ms)"
proof -
  let ?out = "sort_key (\<lambda>m. num_val (timestamp m)) ms"
  have "sorted (map (\<lambda>m. num_val (timestamp m)) ?out)" by (rule sorted_sort_key)
  then have "sorted_wrt (\<lambda>a b. num_val (timestamp a) \<le> num_val (timestamp b)) ?out"
    by (simp add: sorted_map)
  moreover have "\<forall>m\<in>set ?out. is_num (timestamp m)"
    using assms by (simp add: list_all_iff)
  ultimately show ?thesis
    by (auto simp: ts_le_def elim!: sorted_wrt_mono_rel [rotated])
qed

lemma sorted_wrt_ts_le_str:
  assumes "list_all (\<lambda>m. is_str (timestamp m)) ms"
  shows "sorted_wrt (\<lambda>a b. ts_le (timestamp a) (timestamp b))
           (sort_key (\<lambda>m. str_val (timestamp m)) ms)"
proof -
  let ?out = "sort_key (\<lambda>m. str_val (timestamp m)) ms"
  have "sorted (map (\<lambda>m. str_val (timestamp m)) ?out)" by (rule sorted_sort_key)
  then have "sorted_wrt (\<lambda>a b. str_val (timestamp a) \<le> str_val (timestamp b)) ?out"
    by (simp add: sorted_map)
  moreover have "\<forall>m\<in>set ?out. is_str (timestamp m)"
    using assms by (simp add: list_all_iff)
  ultimately show ?thesis
    by (auto simp: ts_le_def elim!: sorted_wrt_mono_rel [rotated])
qed

lemma is_num_not_str: "is_num a \<Longrightarrow> \<not> is_str a"
  by (cases a) simp_all

lemma ts_eq_num: "is_num a \<Longrightarrow> ts_eq a k \<longleftrightarrow> is_num k \<and> num_val a = num_val k"
  by (auto simp: ts_eq_def ts_le_def is_num_not_str)

lemma ts_eq_str: "is_str a \<Longrightarrow> ts_eq a k \<longleftrightarrow> is_str k \<and> str_val a = str_val k"
  by (auto simp: ts_eq_def ts_le_def is_num_not_str)

lemma stable_num:
  assumes "list_all (\<lambda>m. is_num (timestamp m)) ms"
  shows "filter (\<lambda>m. ts_eq (timestamp m) k) (sort_key (\<lambda>m. num_val (timestamp m)) ms)
       = filter (\<lambda>m. ts_eq (timestamp m) k) ms"
proof -
  let ?f = "\<lambda>m. num_val (timestamp m)"
  have all: "\<forall>m\<in>set ms. is_num (timestamp m)" using assms by (simp add: list_all_iff)
  have "filter (\<lambda>m. ts_eq (timestamp m) k) (sort_key ?f ms)
      = filter (\<lambda>m. is_num k \<and> ?f m = num_val k) (sort_key ?f ms)"
    using all by (intro filter_cong) (simp_all add: ts_eq_num)
  also have "\<dots> = filter (\<lambda>m. is_num k \<and> ?f m = num_val k) ms"
    by (cases "is_num k") (simp_all add: sort_key_stable)
  also have "\<dots> = filter (\<lambda>m. ts_eq (timestamp m) k) ms"
    using all by (intro filter_cong) (simp_all add: ts_eq_num)
  finally show ?thesis .
qed

lemma stable_str:
  assumes "list_all (\<lambda>m. is_str (timestamp m)) ms"
  shows "filter (\<lambda>m. ts_eq (timestamp m) k) (sort_key (\<lambda>m. str_val (timestamp m)) ms)
       = filter (\<lambda>m. ts_eq (timestamp m) k) ms"
proof -
  let ?f = "\<lambda>m. str_val (timestamp m)"
  have all: "\<forall>m\<in>set ms. is_str (timestamp m)" using assms by (simp add: list_all_iff)
  have "filter (\<lambda>m. ts_eq (timestamp m) k) (sort_key ?f ms)
      = filter (\<lambda>m. is_str k \<and> ?f m = str_val k) (sort_key ?f ms)"
    using all by (intro filter_cong) (simp_all add: ts_eq_str)
  also have "\<dots> = filter (\<lambda>m. is_str k \<and> ?f m = str_val k) ms"
    by (cases "is_str k") (simp_all add: sort_key_stable)
  also have "\<dots> = filter (\<lambda>m. ts_eq (timestamp m) k) ms"
    using all by (intro filter_cong) (simp_all add: ts_eq_str)
  finally show ?thesis .
qed

lemma format_loop_subseq:
  "format_loop names evs = Inr ms \<Longrightarrow> subseq (map raw_event ms) evs"
proof (induction evs arbitrary: ms)
  case Nil
  then show ?case by simp
next
  case (Cons event rest)
  show ?case
  proof (cases event)
    case (JObj ev)
    from Cons.prems Cons.IH show ?thesis
      unfolding JObj format_loop_obj
      by (auto simp: map_sum_id_eq_Inr split: if_splits sum.splits
            dest!: format_event_Inr)
  qed (use Cons.prems in \<open>simp_all add: format_loop_not_obj\<close>)
qed

text \<open>
  C3. A sequence that \<^verbatim>\<open>get_messages\<close> returns is sorted non-decreasingly by timestamp
  (\<open>ts_le\<close> is Python's \<^verbatim>\<open><=\<close> on two numbers or on two strings). It is a stable
  rearrangement of the formatted messages: for every timestamp, the messages with an
  equal timestamp stand in the output in the order they have among the formatted
  messages, which is the order of their events in the batch.
\<close>

theorem sorted_and_stable:
  assumes "get_messages net self = Some (Inr out)"
  shows "\<exists>evs ms. chunk (net (messages_url self)) = Inr evs
    \<and> format_events evs = Inr ms
    \<and> subseq (map raw_event ms) evs
    \<and> sorted_wrt (\<lambda>a b. ts_le (timestamp a) (timestamp b)) out
    \<and> (\<forall>k. filter (\<lambda>m. ts_eq (timestamp m) k) out = filter (\<lambda>m. ts_eq (timestamp m) k) ms)"
proof -
  from assms obtain ms where fm: "format_messages (net (messages_url self)) = Inr ms"
    and so: "sort_messages ms = Some (Inr out)"
    by (auto simp: get_messages_Inr)
  from fm obtain evs where ch: "chunk (net (messages_url self)) = Inr evs"
    and fe: "format_events evs = Inr ms"
    by (auto simp: format_messages_def and_then_eq_Inr)
  from fe have sub: "subseq (map raw_event ms) evs"
    by (auto simp: format_events_def and_then_eq_Inr dest: format_loop_subseq)
  have srt: "sorted_wrt (\<lambda>a b. ts_le (timestamp a) (timestamp b)) out"
    using sort_messages_Inr [OF so]
  proof (elim disjE conjE)
    assume "length ms \<le> 1" "out = ms"
    then show ?thesis by (cases ms) (auto simp: le_Suc_eq)
  qed (simp_all add: sorted_wrt_ts_le_num sorted_wrt_ts_le_str)
  have stb: "\<forall>k. filter (\<lambda>m. ts_eq (timestamp m) k) out = filter (\<lambda>m. ts_eq (timestamp m) k) ms"
    using sort_messages_Inr [OF so] by (auto simp: stable_num stable_str)
  from ch fe sub srt stb show ?thesis by blast
qed

lemma unsorted_got:
  "get_messages (\<lambda>url. unsorted_response) self = Some (Inr sorted_messages)"
  by (simp add: get_messages_def unsorted_formatted unsorted_sorted)

theorem sorted_and_stable_witness:
  "get_messages (\<lambda>url. unsorted_response) client_a = Some (Inr sorted_messages)
   \<and> format_messages unsorted_response = Inr unsorted_messages
   \<and> sorted_wrt (\<lambda>a b. ts_le (timestamp a) (timestamp b)) sorted_messages
   \<and> filter (\<lambda>m. ts_eq (timestamp m) (JInt 300)) sorted_messages
       = filter (\<lambda>m. ts_eq (timestamp m) (JInt 300)) unsorted_messages"
proof -
  have got: "get_messages (\<lambda>url. unsorted_response) client_a = Some (Inr sorted_messages)"
    by (rule unsorted_got)
  from sorted_and_stable [OF got] obtain evs ms where
    ch: "chunk unsorted_response = Inr evs" and fe: "format_events evs = Inr ms"
    and srt: "sorted_wrt (\<lambda>a b. ts_le (timestamp a) (timestamp b)) sorted_messages"
    and stb: "\<forall>k. filter (\<lambda>m. ts_eq (timestamp m) k) sorted_messages
                 = filter (\<lambda>m. ts_eq (timestamp m) k) ms"
    by blast
  from ch fe have "format_messages unsorted_response = Inr ms"
    by (simp add: format_messages_def)
  with unsorted_formatted have "ms = unsorted_messages" by simp
  with stb have "filter (\<lambda>m. ts_eq (timestamp m) (JInt 300)) sorted_messages
       = filter (\<lambda>m. ts_eq (timestamp m) (JInt 300)) unsorted_messages"
    by blast
  with got unsorted_formatted srt show ?thesis by blast
qed

subsection \<open>C10: a missing timestamp\<close>

text \<open>
  C10. In a sequence that \<^verbatim>\<open>get_messages\<close> returns, a message whose event has no
  \<open>origin_server_ts\<close> has the timestamp 0 and stands before every message with a
  positive timestamp.
\<close>

theorem missing_timestamp_sorts_first:
  assumes "get_messages net self = Some (Inr out)" and "i < length out"
    and "raw_event (out ! i) = JObj ev" and "map_of ev ''origin_server_ts'' = None"
  shows "timestamp (out ! i) = JInt 0
    \<and> (\<forall>j<length out. is_num (timestamp (out ! j)) \<and> 0 < num_val (timestamp (out ! j))
          \<longrightarrow> i < j)"
proof -
  from assms(1) obtain ms where fm: "format_messages (net (messages_url self)) = Inr ms"
    and so: "sort_messages ms = Some (Inr out)"
    by (auto simp: get_messages_Inr)
  have "out ! i \<in> set out" using assms(2) by (rule nth_mem)
  then have mem: "out ! i \<in> set ms"
    by (simp only: sort_messages_set [OF so])
  with fm obtain names ev' where ev': "format_event names ev' = Inr (out ! i)"
    by (auto simp: format_messages_Inr dest: format_loop_mem)
  from format_event_Inr [OF ev'] have "raw_event (out ! i) = JObj ev'"
    and "timestamp (out ! i) = dict_get ev' ''origin_server_ts'' (JInt 0)"
    by blast+
  with assms(3,4) have zero: "timestamp (out ! i) = JInt 0"
    by (simp add: dict_get_def)
  have "i < j" if j: "j < length out" and num: "is_num (timestamp (out ! j))"
    and pos: "0 < num_val (timestamp (out ! j))" for j
  proof (rule ccontr)
    assume "\<not> i < j"
    with pos zero have ji: "j < i" by (cases "j = i") auto
    from sort_messages_Inr [OF so] show False
    proof (elim disjE conjE)
      assume "length ms \<le> 1" "out = ms"
      with ji assms(2) show False by simp
    next
      assume "out = sort_key (\<lambda>m. num_val (timestamp m)) ms"
      then have "sorted (map (\<lambda>m. num_val (timestamp m)) out)" by simp
      from sorted_nth_mono [OF this, of j i] ji assms(2) pos zero show False by simp
    next
      assume "list_all (\<lambda>m. is_str (timestamp m)) ms"
      with mem zero show False by (auto simp: list_all_iff)
    qed
  qed
  with zero show ?thesis by blast
qed

theorem missing_timestamp_sorts_first_witness:
  "get_messages (\<lambda>url. unsorted_response) client_b = Some (Inr sorted_messages)
   \<and> timestamp (sorted_messages ! 0) = JInt 0
   \<and> 0 < num_val (timestamp (sorted_messages ! 1))
   \<and> (0::nat) < 1"
proof -
  let ?ev = "[(''type'', JStr ''m.room.message''), (''sender'', JStr ''@b''),
              (''content'', JObj [(''body'', JStr ''no time'')])]"
  have got: "get_messages (\<lambda>url. unsorted_response) client_b = Some (Inr sorted_messages)"
    by (rule unsorted_got)
  have len: "0 < length sorted_messages" "1 < length sorted_messages"
    by (simp_all add: sorted_messages_def)
  have raw: "raw_event (sorted_messages ! 0) = JObj ?ev"
    by (simp add: sorted_messages_def unsorted_messages_def plain_message_def)
  have none: "map_of ?ev ''origin_server_ts'' = None" by simp
  note t = missing_timestamp_sorts_first [OF got len(1) raw none]
  have pos: "is_num (timestamp (sorted_messages ! 1))
      \<and> 0 < num_val (timestamp (sorted_messages ! 1))"
    by (simp add: sorted_messages_def unsorted_messages_def plain_message_def)
  from t len(2) pos have "(0::nat) < 1" by blast
  with got t pos show ?thesis by blast
qed

subsection \<open>C5: display names, last write wins\<close>


lemma collect_step_obj:
  "collect_step names (JObj ev) =
     (if dict_get ev ''type'' JNull = JStr ''m.room.member'' then
        and_then (py_get (dict_get ev ''content'' (JObj [])) ''displayname'' JNull)
          (\<lambda>display_name.
             if truthy (dict_get ev ''sender'' JNull) \<and> truthy display_name
             then names_set names (dict_get ev ''sender'' JNull) display_name
             else Inr names)
      else Inr names)"
  by (simp add: collect_step_def)

lemma collect_step_is_dict: "collect_step names e = Inr names' \<Longrightarrow> is_dict e"
  by (cases e) (simp_all add: collect_step_def)

lemma jget_content:
  "py_get (dict_get ev ''content'' (JObj [])) k JNull = Inr d \<Longrightarrow>
     jget (jget (JObj ev) ''content'') k = d"
  by (auto simp: py_get_eq_Inr jget_of_default)

text \<open>One step of the first pass writes the fact of the event, if it has one.\<close>

lemma collect_step_Inr:
  assumes "collect_step names e = Inr names'"
  shows "(membership_fact e = None \<and> names' = names)
    \<or> (\<exists>s d k. membership_fact e = Some (s, d) \<and> hash_key s = Inr k
          \<and> names' = names(k \<mapsto> d))"
proof -
  from collect_step_is_dict [OF assms] obtain ev where e: "e = JObj ev"
    by (cases e) simp_all
  show ?thesis
  proof (cases "dict_get ev ''type'' JNull = JStr ''m.room.member''")
    case False
    with assms show ?thesis
      by (simp add: e collect_step_obj membership_fact_def Let_def)
  next
    case True
    with assms obtain d where
      d: "py_get (dict_get ev ''content'' (JObj [])) ''displayname'' JNull = Inr d"
      and st: "(if truthy (dict_get ev ''sender'' JNull) \<and> truthy d
             then names_set names (dict_get ev ''sender'' JNull) d
             else Inr names) = Inr names'"
      by (auto simp: e collect_step_obj and_then_eq_Inr)
    have fact: "membership_fact e =
        (if truthy (dict_get ev ''sender'' JNull) \<and> truthy d
         then Some (dict_get ev ''sender'' JNull, d) else None)"
      using True jget_content [OF d] by (simp add: membership_fact_def e Let_def)
    show ?thesis
    proof (cases "truthy (dict_get ev ''sender'' JNull) \<and> truthy d")
      case False
      with st fact show ?thesis by auto
    next
      case True
      with st fact show ?thesis
        by (auto simp: names_set_def and_then_eq_Inr)
    qed
  qed
qed

lemma collect_step_no_fact:
  "is_dict e \<Longrightarrow> jget e ''type'' \<noteq> JStr ''m.room.member'' \<Longrightarrow> collect_step names e = Inr names"
  by (cases e) (simp_all add: collect_step_obj)

lemma collect_names_append:
  "collect_names names (xs @ ys) = and_then (collect_names names xs) (\<lambda>n. collect_names n ys)"
  by (induction xs arbitrary: names) (simp_all add: and_then_def split: sum.splits)

lemma collect_names_is_dict:
  "collect_names names evs = Inr names' \<Longrightarrow> e \<in> set evs \<Longrightarrow> is_dict e"
  by (induction evs arbitrary: names)
     (auto simp: and_then_eq_Inr dest: collect_step_is_dict)

lemma collect_names_unset:
  "collect_names names evs = Inr names' \<Longrightarrow> \<forall>e\<in>set evs. \<not> sets_name e k \<Longrightarrow>
     names' k = names k"
proof (induction evs arbitrary: names)
  case Nil
  then show ?case by simp
next
  case (Cons e evs)
  from Cons.prems(1) obtain n where n: "collect_step names e = Inr n"
    and rest: "collect_names n evs = Inr names'"
    by (auto simp: and_then_eq_Inr)
  from Cons.prems(2) have "\<not> sets_name e k" by simp
  with collect_step_Inr [OF n] have "n k = names k"
    by (auto simp: sets_name_def)
  moreover from Cons.IH [OF rest] Cons.prems(2) have "names' k = n k" by simp
  ultimately show ?case by simp
qed





subsection \<open>C6: other events and failing message events\<close>

lemma is_message_is_dict: "is_message e \<Longrightarrow> is_dict e"
  by (cases e) (simp_all add: is_message_def)

lemma collect_step_message: "is_message e \<Longrightarrow> collect_step names e = Inr names"
  by (rule collect_step_no_fact) (simp_all add: is_message_is_dict, simp add: is_message_def)

lemma collect_step_other: "is_other e \<Longrightarrow> collect_step names e = Inr names"
  by (rule collect_step_no_fact) (simp_all add: is_other_def)

lemma collect_names_filter:
  assumes "\<And>e n. e \<in> set evs \<Longrightarrow> \<not> P e \<Longrightarrow> collect_step n e = Inr n"
  shows "collect_names names (filter P evs) = collect_names names evs"
  using assms by (induction evs arbitrary: names) simp_all

lemma collect_names_filter_other:
  "collect_names names (filter (\<lambda>e. \<not> is_other e) evs) = collect_names names evs"
  by (rule collect_names_filter) (simp add: collect_step_other)

lemma collect_names_filter_message:
  "collect_names names (filter (\<lambda>e. \<not> is_message e) evs) = collect_names names evs"
  by (rule collect_names_filter) (simp add: collect_step_message)

lemma format_loop_Cons_cong:
  assumes "format_loop names r1 = format_loop names r2"
  shows "format_loop names (e # r1) = format_loop names (e # r2)"
proof (cases e)
  case (JObj ev)
  show ?thesis unfolding JObj format_loop_obj using assms by (simp split: sum.splits)
qed (simp_all add: format_loop_not_obj)

lemma format_loop_filter_other:
  "format_loop names (filter (\<lambda>e. \<not> is_other e) evs) = format_loop names evs"
proof (induction evs)
  case Nil
  then show ?case by simp
next
  case (Cons e evs)
  show ?case
  proof (cases "is_other e")
    case True
    then obtain ev where "e = JObj ev" by (cases e) (simp_all add: is_other_def)
    with True Cons show ?thesis by (simp add: is_other_def format_loop_obj)
  next
    case False
    then have "filter (\<lambda>e. \<not> is_other e) (e # evs) = e # filter (\<lambda>e. \<not> is_other e) evs"
      by simp
    then show ?thesis
      by (simp only:) (rule format_loop_Cons_cong, rule Cons)
  qed
qed

lemma format_events_filter_other:
  "format_events (filter (\<lambda>e. \<not> is_other e) evs) = format_events evs"
  by (simp add: format_events_def format_loop_filter_other collect_names_filter_other)

lemma format_loop_skip:
  assumes "is_message (JObj ev)" and "format_event names ev = Inl err"
  shows "format_loop names (pre @ JObj ev # post) = format_loop names (pre @ post)"
proof (induction pre)
  case Nil
  from assms show ?case by (simp add: is_message_def format_loop_obj)
next
  case (Cons e pre)
  then show ?case
    unfolding append_Cons by (rule format_loop_Cons_cong)
qed

lemma collect_names_skip_message:
  assumes "is_message e"
  shows "collect_names names (pre @ e # post) = collect_names names (pre @ post)"
  by (simp add: collect_names_append collect_step_message [OF assms])

lemma format_loop_total:
  "\<forall>e\<in>set evs. is_dict e \<Longrightarrow> \<exists>ms. format_loop names evs = Inr ms"
proof (induction evs)
  case Nil
  then show ?case by simp
next
  case (Cons e evs)
  then obtain ms where ms: "format_loop names evs = Inr ms" by auto
  from Cons.prems obtain ev where "e = JObj ev" by (cases e) simp_all
  with ms show ?case
    by (simp add: format_loop_obj split: sum.splits)
qed

lemma format_events_Inl:
  assumes "format_events evs = Inl err"
  shows "collect_names Map.empty evs = Inl err"
proof (cases "collect_names Map.empty evs")
  case (Inl e)
  with assms show ?thesis by (simp add: format_events_def)
next
  case (Inr names)
  then have "\<forall>e\<in>set evs. is_dict e" by (blast dest: collect_names_is_dict)
  from format_loop_total [OF this, of names] Inr assms show ?thesis
    by (auto simp: format_events_def)
qed

text \<open>
  C6. Events that are neither messages nor member events (\<open>is_other\<close>) contribute
  nothing: removing them changes neither the result of the formatting call nor the
  display names. A message event whose processing fails is skipped and the rest of the
  batch is processed as if it were not there. A failure of the whole call is never due
  to a message event: it is the failure of the first pass, and already that of the first
  pass over the events that are not messages.
\<close>

theorem other_events_dropped_failures_skipped:
  "format_events (filter (\<lambda>e. \<not> is_other e) evs) = format_events evs
   \<and> collect_names names (filter (\<lambda>e. \<not> is_other e) evs) = collect_names names evs
   \<and> (collect_names Map.empty (pre @ post) = Inr names' \<and> is_message (JObj ev)
        \<and> format_event names' ev = Inl err
      \<longrightarrow> format_events (pre @ JObj ev # post) = format_events (pre @ post))
   \<and> (format_events evs = Inl err' \<longrightarrow>
        collect_names Map.empty (filter (\<lambda>e. \<not> is_message e) evs) = Inl err')"
proof -
  have a: "format_events (filter (\<lambda>e. \<not> is_other e) evs) = format_events evs"
    by (rule format_events_filter_other)
  have b: "collect_names names (filter (\<lambda>e. \<not> is_other e) evs) = collect_names names evs"
    by (rule collect_names_filter_other)
  have c: "format_events (pre @ JObj ev # post) = format_events (pre @ post)"
    if "collect_names Map.empty (pre @ post) = Inr names'" and "is_message (JObj ev)"
      and "format_event names' ev = Inl err"
    using that
    by (simp add: format_events_def collect_names_skip_message format_loop_skip)
  have d: "collect_names Map.empty (filter (\<lambda>e. \<not> is_message e) evs) = Inl err'"
    if "format_events evs = Inl err'"
    using format_events_Inl [OF that]
    by (simp add: collect_names_filter_message)
  from a b c d show ?thesis by blast
qed

theorem other_events_dropped_failures_skipped_witness:
  "format_events ([scenario_member, reaction_event] @ [scenario_first])
     = Inr [scenario_first_message]
   \<and> format_events (filter (\<lambda>e. \<not> is_other e)
        [scenario_member, reaction_event, JObj broken_fields, scenario_first])
     = format_events [scenario_member, reaction_event, JObj broken_fields, scenario_first]
   \<and> format_events ([scenario_member, reaction_event] @ JObj broken_fields # [scenario_first])
     = format_events ([scenario_member, reaction_event] @ [scenario_first])"
proof -
  let ?names = "Map.empty(KStr ''@a'' \<mapsto> JStr ''Alice'')"
  note t = other_events_dropped_failures_skipped
    [of "[scenario_member, reaction_event, JObj broken_fields, scenario_first]" Map.empty
       "[scenario_member, reaction_event]" "[scenario_first]" ?names broken_fields AttributeError]
  have run: "format_events ([scenario_member, reaction_event] @ [scenario_first])
     = Inr [scenario_first_message]"
    by (simp add: example_defs reaction_event_def run_defs)
  have cn: "collect_names Map.empty ([scenario_member, reaction_event] @ [scenario_first])
      = Inr ?names"
    by (simp add: example_defs reaction_event_def run_defs)
  have msg: "is_message (JObj broken_fields)"
    by (simp add: is_message_def broken_fields_def dict_get_def)
  have bad: "format_event ?names broken_fields = Inl AttributeError"
    by (simp add: broken_fields_def run_defs)
  from t have a: "format_events (filter (\<lambda>e. \<not> is_other e)
        [scenario_member, reaction_event, JObj broken_fields, scenario_first])
     = format_events [scenario_member, reaction_event, JObj broken_fields, scenario_first]"
    by blast
  from t cn msg bad have b:
    "format_events ([scenario_member, reaction_event] @ JObj broken_fields # [scenario_first])
     = format_events ([scenario_member, reaction_event] @ [scenario_first])"
    by blast
  from run a b show ?thesis by blast
qed

subsection \<open>C9: a missing sender\<close>

lemma hash_or_unknown_ok: "id_ok x \<longleftrightarrow> (\<exists>h. hash_or_unknown x = Inr h)"
  by (cases x) (auto simp: id_ok_def hash_or_unknown_def)

lemma related_hash_ok:
  "id_ok x \<Longrightarrow>
     \<exists>h. (if truthy x then map_sum id Some (hash_or_unknown x) else Inr None) = Inr h"
  by (cases x) (auto simp: id_ok_def hash_or_unknown_def)

lemma related_hash_id_ok:
  "(if truthy x then map_sum id Some (hash_or_unknown x) else Inr None) = Inr h \<Longrightarrow> id_ok x"
  by (cases x) (auto simp: id_ok_def hash_or_unknown_def split: if_splits)

lemma related_ok_Inr:
  assumes "related_ok rt"
  shows "\<exists>rid. (if dict_get rt ''rel_type'' JNull = JStr ''m.thread''
                 then py_get (JObj rt) ''event_id'' JNull
               else if map_of rt ''m.in_reply_to'' \<noteq> None then
                 and_then (py_get (JObj rt) ''m.in_reply_to'' (JObj []))
                   (\<lambda>in_reply_to. py_get in_reply_to ''event_id'' JNull)
               else Inr JNull) = Inr rid \<and> id_ok rid"
proof (cases "dict_get rt ''rel_type'' JNull = JStr ''m.thread''")
  case True
  with assms show ?thesis by (simp add: related_ok_def)
next
  case False
  show ?thesis
  proof (cases "map_of rt ''m.in_reply_to'' = None")
    case True
    with False show ?thesis by (simp add: id_ok_def)
  next
    case nn: False
    with assms False obtain x where "dict_get rt ''m.in_reply_to'' (JObj []) = JObj x"
      and "id_ok (dict_get x ''event_id'' JNull)"
      by (auto simp: related_ok_def split: json.splits)
    with False nn show ?thesis by simp
  qed
qed

text \<open>The body of the \<^verbatim>\<open>try\<close> raises nothing on an event with a hashable sender and
  well-formed fields.\<close>

lemma format_event_succeeds:
  assumes "hash_key (dict_get ev ''sender'' (JStr ''Unknown'')) = Inr k" and "fields_ok ev"
  shows "\<exists>m. format_event names ev = Inr m"
proof -
  from assms(2) obtain c rt where c: "dict_get ev ''content'' (JObj []) = JObj c"
    and rt: "dict_get c ''m.relates_to'' (JObj []) = JObj rt"
    and rel: "related_ok rt" and eid: "id_ok (dict_get ev ''event_id'' (JStr []))"
    by (auto simp: fields_ok_def split: json.splits)
  from related_ok_Inr [OF rel] obtain rid where
    rid: "(if dict_get rt ''rel_type'' JNull = JStr ''m.thread''
                 then py_get (JObj rt) ''event_id'' JNull
               else if map_of rt ''m.in_reply_to'' \<noteq> None then
                 and_then (py_get (JObj rt) ''m.in_reply_to'' (JObj []))
                   (\<lambda>in_reply_to. py_get in_reply_to ''event_id'' JNull)
               else Inr JNull) = Inr rid"
    and rid_ok: "id_ok rid"
    by blast
  from eid obtain eh where eh: "hash_or_unknown (dict_get ev ''event_id'' (JStr [])) = Inr eh"
    by (auto simp: hash_or_unknown_ok)
  from related_hash_ok [OF rid_ok] obtain rh where
    rh: "(if truthy rid then map_sum id Some (hash_or_unknown rid) else Inr None) = Inr rh"
    by blast
  show ?thesis
    using rid eh rh
    unfolding format_event_def Let_def
    by (simp add: names_get_def assms(1) c rt split del: if_split cong: if_cong)
qed

lemma format_event_fields_ok:
  assumes "format_event names ev = Inr m"
  shows "fields_ok ev"
proof -
  from format_event_Inr [OF assms] obtain c rt where
    c: "dict_get ev ''content'' (JObj []) = JObj c"
    and rt: "dict_get c ''m.relates_to'' (JObj []) = JObj rt"
    and ir: "is_reply m = (map_of rt ''m.in_reply_to'' \<noteq> None)"
    and it: "is_thread m = (dict_get rt ''rel_type'' JNull = JStr ''m.thread'')"
    and rid: "(if is_thread m then Inr (dict_get rt ''event_id'' JNull)
        else if is_reply m then py_get (dict_get rt ''m.in_reply_to'' (JObj [])) ''event_id'' JNull
        else Inr JNull) = Inr (reply_to_event_id m)"
    and eh: "hash_or_unknown (dict_get ev ''event_id'' (JStr [])) = Inr (event_hash m)"
    and rh: "(if truthy (reply_to_event_id m)
        then map_sum id Some (hash_or_unknown (reply_to_event_id m))
        else Inr None) = Inr (reply_to_hash m)"
    by blast
  from rh have ok: "id_ok (reply_to_event_id m)" by (rule related_hash_id_ok)
  have "related_ok rt"
  proof (cases "is_thread m")
    case True
    with rid it ok show ?thesis by (simp add: related_ok_def)
  next
    case False
    show ?thesis
    proof (cases "is_reply m")
      case True
      with rid False obtain x where "dict_get rt ''m.in_reply_to'' (JObj []) = JObj x"
        and "reply_to_event_id m = dict_get x ''event_id'' JNull"
        by (auto simp: py_get_eq_Inr)
      with ok True False ir it show ?thesis by (simp add: related_ok_def)
    next
      case nr: False
      with False ir it show ?thesis by (simp add: related_ok_def)
    qed
  qed
  moreover from eh have "id_ok (dict_get ev ''event_id'' (JStr []))"
    by (auto simp: hash_or_unknown_ok)
  ultimately show ?thesis by (simp add: fields_ok_def c rt)
qed

text \<open>The loop appends the message of every message event that the body formats.\<close>

lemma format_loop_emits:
  "format_loop names evs = Inr ms \<Longrightarrow> JObj ev \<in> set evs \<Longrightarrow>
     dict_get ev ''type'' JNull = JStr ''m.room.message'' \<Longrightarrow>
     format_event names ev = Inr m \<Longrightarrow> m \<in> set ms"
proof (induction evs arbitrary: ms)
  case Nil
  then show ?case by simp
next
  case (Cons event rest)
  show ?case
  proof (cases event)
    case (JObj ev')
    from Cons.prems Cons.IH show ?thesis
      unfolding JObj format_loop_obj
      by (auto simp: map_sum_id_eq_Inr split: if_splits sum.splits)
  qed (use Cons.prems in \<open>simp_all add: format_loop_not_obj\<close>)
qed

text \<open>
  C9, as the code has it. Take a batch that the first pass accepts and a message event
  of it that has no \<open>sender\<close> and whose other fields are well formed (\<open>fields_ok\<close>). The
  formatting call returns, and its output holds a message of that event. Every message
  of that event has the sender and the nickname \<open>Unknown\<close>, and its display name is the
  entry of \<open>Unknown\<close> in the resolved names, absent unless a member event of the batch
  sets a name for that literal sender. Well-formed fields are needed: the event of
  every message in the output has them.
\<close>

theorem missing_sender_unknown:
  assumes "map_of ev ''sender'' = None" and "fields_ok ev"
    and "is_message (JObj ev)" and "JObj ev \<in> set evs"
    and "collect_names Map.empty evs = Inr names"
  shows "\<exists>ms. format_events evs = Inr ms
    \<and> (\<exists>m\<in>set ms. raw_event m = JObj ev)
    \<and> (\<forall>m\<in>set ms. raw_event m = JObj ev \<longrightarrow>
          sender m = JStr ''Unknown'' \<and> nickname m = JStr ''Unknown''
          \<and> display_name m = (case names (KStr ''Unknown'') of None \<Rightarrow> JNull | Some d \<Rightarrow> d)
          \<and> ((\<forall>e\<in>set evs. \<not> sets_name e (KStr ''Unknown'')) \<longrightarrow> display_name m = JNull))
    \<and> (\<forall>m\<in>set ms. \<forall>e. raw_event m = JObj e \<longrightarrow> fields_ok e)"
proof -
  have "\<forall>e\<in>set evs. is_dict e"
    using assms(5) by (blast dest: collect_names_is_dict)
  from format_loop_total [OF this] obtain ms where fl: "format_loop names evs = Inr ms"
    by blast
  with assms(5) have fe: "format_events evs = Inr ms" by (simp add: format_events_def)
  have unk: "dict_get ev ''sender'' (JStr ''Unknown'') = JStr ''Unknown''"
    using assms(1) by (simp add: dict_get_def)
  then have "hash_key (dict_get ev ''sender'' (JStr ''Unknown'')) = Inr (KStr ''Unknown'')"
    by simp
  from format_event_succeeds [OF this assms(2)] obtain m0 where
    m0: "format_event names ev = Inr m0"
    by blast
  from assms(3) have ty: "dict_get ev ''type'' JNull = JStr ''m.room.message''"
    by (simp add: is_message_def)
  from format_loop_emits [OF fl assms(4) ty m0] have mem: "m0 \<in> set ms" .
  from format_event_Inr [OF m0] have "raw_event m0 = JObj ev" by blast
  with mem have emitted: "\<exists>m\<in>set ms. raw_event m = JObj ev" by blast
  have fields: "sender m = JStr ''Unknown'' \<and> nickname m = JStr ''Unknown''
          \<and> display_name m = (case names (KStr ''Unknown'') of None \<Rightarrow> JNull | Some d \<Rightarrow> d)
          \<and> ((\<forall>e\<in>set evs. \<not> sets_name e (KStr ''Unknown'')) \<longrightarrow> display_name m = JNull)"
    if mem: "m \<in> set ms" and raw: "raw_event m = JObj ev" for m
  proof -
    from format_loop_mem [OF fl mem] obtain ev' where ev': "format_event names ev' = Inr m"
      by blast
    from format_event_Inr [OF ev'] have raw': "raw_event m = JObj ev'"
      and s: "sender m = dict_get ev' ''sender'' (JStr ''Unknown'')"
      and n: "nickname m = sender m"
      and dn: "names_get names (sender m) = Inr (display_name m)"
      by blast+
    from raw raw' have "ev' = ev" by simp
    with s unk have s': "sender m = JStr ''Unknown''" by simp
    with dn have dn': "display_name m =
        (case names (KStr ''Unknown'') of None \<Rightarrow> JNull | Some d \<Rightarrow> d)"
      by (simp add: names_get_eq_Inr)
    have "display_name m = JNull" if "\<forall>e\<in>set evs. \<not> sets_name e (KStr ''Unknown'')"
      using collect_names_unset [OF assms(5) that] dn' by simp
    with s' n dn' show ?thesis by auto
  qed
  have needed: "fields_ok e" if mem: "m \<in> set ms" and raw: "raw_event m = JObj e" for m e
  proof -
    from format_loop_mem [OF fl mem] obtain ev' where ev': "format_event names ev' = Inr m"
      by blast
    from format_event_Inr [OF ev'] raw have "ev' = e" by auto
    with format_event_fields_ok [OF ev'] show ?thesis by simp
  qed
  from fe emitted fields needed show ?thesis by blast
qed

theorem missing_sender_unknown_witness:
  "format_events [member_event (JStr ''Unknown'') (JStr ''Nobody''), JObj nosender_fields]
     = Inr [nosender_message]
   \<and> raw_event nosender_message = JObj nosender_fields
   \<and> sender nosender_message = JStr ''Unknown''
   \<and> nickname nosender_message = JStr ''Unknown''
   \<and> display_name nosender_message = JStr ''Nobody''"
proof -
  let ?evs = "[member_event (JStr ''Unknown'') (JStr ''Nobody''), JObj nosender_fields]"
  let ?names = "Map.empty(KStr ''Unknown'' \<mapsto> JStr ''Nobody'')"
  have none: "map_of nosender_fields ''sender'' = None"
    by (simp add: nosender_fields_def)
  have ok: "fields_ok nosender_fields"
    by (simp add: nosender_fields_def fields_ok_def related_ok_def id_ok_def dict_get_def)
  have msg: "is_message (JObj nosender_fields)"
    by (simp add: is_message_def nosender_fields_def dict_get_def)
  have mem: "JObj nosender_fields \<in> set ?evs" by simp
  have cn: "collect_names Map.empty ?evs = Inr ?names"
    by (simp add: member_event_def nosender_fields_def run_defs)
  have run: "format_events ?evs = Inr [nosender_message]"
    by (simp add: member_event_def nosender_fields_def nosender_message_def run_defs)
  from missing_sender_unknown [OF none ok msg mem cn] obtain ms where
    fe: "format_events ?evs = Inr ms"
    and em: "\<exists>m\<in>set ms. raw_event m = JObj nosender_fields"
    and fl: "\<forall>m\<in>set ms. raw_event m = JObj nosender_fields \<longrightarrow>
          sender m = JStr ''Unknown'' \<and> nickname m = JStr ''Unknown''
          \<and> display_name m = (case ?names (KStr ''Unknown'') of None \<Rightarrow> JNull | Some d \<Rightarrow> d)"
    by blast
  from fe run have "ms = [nosender_message]" by simp
  with em fl have "raw_event nosender_message = JObj nosender_fields
      \<and> sender nosender_message = JStr ''Unknown''
      \<and> nickname nosender_message = JStr ''Unknown''
      \<and> display_name nosender_message
          = (case ?names (KStr ''Unknown'') of None \<Rightarrow> JNull | Some d \<Rightarrow> d)"
    by simp
  then have "raw_event nosender_message = JObj nosender_fields
      \<and> sender nosender_message = JStr ''Unknown''
      \<and> nickname nosender_message = JStr ''Unknown''
      \<and> display_name nosender_message = JStr ''Nobody''"
    by simp
  with run show ?thesis by blast
qed

text \<open>
  A message event with no \<open>sender\<close> and \<open>content\<close> null is not emitted: reading its content
  raises in the \<^verbatim>\<open>try\<close> (line 169) and the event is skipped, so the output of the batch
  that holds only this event is empty.
\<close>

theorem missing_sender_not_emitted_counterexample:
  "map_of nosender_null_fields ''sender'' = None
   \<and> is_message (JObj nosender_null_fields)
   \<and> format_events [JObj nosender_null_fields] = Inr []"
  by (simp add: nosender_null_fields_def is_message_def run_defs)

end
